theory Spec2Isabelle
  imports Complex_Main "HOL-Library.Multiset" "HOL-Library.List_Lexorder" "HOL-Library.Product_Lexorder"
begin

section \<open>Strings and bytes\<close>

text \<open>
  A Python \<open>str\<close> is a sequence of Unicode code points, so it is modelled as a list of
  code points (\<open>len\<close> is \<open>length\<close>); \<open>bytes\<close> is a list of numbers below 256.
  \<open>ustr\<close> turns an ASCII literal into such a string.
\<close>

type_synonym ustr = "nat list"
type_synonym bytes = "nat list"

definition ustr :: "string \<Rightarrow> ustr" where
  "ustr s = map of_char s"

text \<open>
  \<open>s.encode("utf-8", errors="ignore")\<close>: one to four bytes per code point; a surrogate
  (U+D800 to U+DFFF) cannot be encoded and is dropped by \<open>errors="ignore"\<close>.
\<close>

definition encode_cp :: "nat \<Rightarrow> bytes" where
  "encode_cp c =
     (if c < 0x80 then [c]
      else if c < 0x800 then [0xC0 + c div 0x40, 0x80 + c mod 0x40]
      else if 0xD800 \<le> c \<and> c \<le> 0xDFFF then []
      else if c < 0x10000 then
        [0xE0 + c div 0x1000, 0x80 + (c div 0x40) mod 0x40, 0x80 + c mod 0x40]
      else
        [0xF0 + c div 0x40000, 0x80 + (c div 0x1000) mod 0x40,
         0x80 + (c div 0x40) mod 0x40, 0x80 + c mod 0x40])"

definition encode_utf8_ignore :: "ustr \<Rightarrow> bytes" where
  "encode_utf8_ignore s = concat (map encode_cp s)"

text \<open>
  \<open>str.lower\<close> is the Unicode lowercase mapping of the Python runtime. The functions below
  take it as the parameter \<open>lower\<close>. \<open>lower_latin1\<close> is that mapping on the code points
  below U+0100 (ASCII and Latin-1: \<open>A\<close> to \<open>Z\<close> and U+00C0 to U+00DE without U+00D7 move up
  by 32); it is used to evaluate the functions on concrete strings of that range.
\<close>

definition lower_cp_latin1 :: "nat \<Rightarrow> nat" where
  "lower_cp_latin1 c =
     (if 0x41 \<le> c \<and> c \<le> 0x5A then c + 0x20
      else if 0xC0 \<le> c \<and> c \<le> 0xDE \<and> c \<noteq> 0xD7 then c + 0x20
      else c)"

definition lower_latin1 :: "ustr \<Rightarrow> ustr" where
  "lower_latin1 s = map lower_cp_latin1 s"

section \<open>Edit distance (csig\_core.levenshtein\_distance)\<close>

text \<open>
  The inner loop \<open>for j in range(1, m + 1)\<close> writes \<open>cur[j]\<close> from \<open>cur[j - 1]\<close>,
  \<open>prev[j]\<close> and \<open>prev[j - 1]\<close>; the outer loop \<open>for i in range(1, n + 1)\<close> sets
  \<open>cur[0] = i\<close>, runs the inner loop and swaps the two rows.
\<close>

definition lev_cell :: "nat \<Rightarrow> bytes \<Rightarrow> int list \<Rightarrow> nat \<Rightarrow> int list \<Rightarrow> int list" where
  "lev_cell ai b_bytes prev j cur =
     (let cost = (if ai = b_bytes ! (j - 1) then 0 else 1)
      in cur[j := min (cur ! (j - 1) + 1) (min (prev ! j + 1) (prev ! (j - 1) + cost))])"

definition lev_row :: "bytes \<Rightarrow> bytes \<Rightarrow> nat \<Rightarrow> nat \<Rightarrow> int list \<times> int list \<Rightarrow> int list \<times> int list" where
  "lev_row a_bytes b_bytes m i rows =
     (let prev = fst rows;
          cur = (snd rows)[0 := int i];
          ai = a_bytes ! (i - 1);
          cur = fold (lev_cell ai b_bytes prev) [1..<m + 1] cur
      in (cur, prev))"

definition levenshtein_bytes :: "bytes \<Rightarrow> bytes \<Rightarrow> int" where
  "levenshtein_bytes a_bytes b_bytes =
     (let n = length a_bytes; m = length b_bytes
      in if n = 0 then int m
         else if m = 0 then int n
         else
           let prev = map int [0..<m + 1];
               cur = replicate (m + 1) 0;
               rows = fold (lev_row a_bytes b_bytes m) [1..<n + 1] (prev, cur)
           in fst rows ! m)"

definition levenshtein_distance :: "(ustr \<Rightarrow> ustr) \<Rightarrow> ustr \<Rightarrow> ustr \<Rightarrow> int" where
  "levenshtein_distance lower a b =
     levenshtein_bytes (encode_utf8_ignore (lower a)) (encode_utf8_ignore (lower b))"

text \<open>
  The table the two rolling rows run over: entry \<open>(i, j)\<close> is the distance between the
  first \<open>i\<close> bytes of \<open>a\<close> and the first \<open>j\<close> bytes of \<open>b\<close>.
\<close>

fun lev_table :: "bytes \<Rightarrow> bytes \<Rightarrow> nat \<Rightarrow> nat \<Rightarrow> int" where
  "lev_table a b 0 j = int j"
| "lev_table a b (Suc i) 0 = int (Suc i)"
| "lev_table a b (Suc i) (Suc j) =
     min (lev_table a b (Suc i) j + 1)
       (min (lev_table a b i (Suc j) + 1)
            (lev_table a b i j + (if a ! i = b ! j then 0 else 1)))"

definition row_ok :: "bytes \<Rightarrow> bytes \<Rightarrow> nat \<Rightarrow> nat \<Rightarrow> int list \<times> int list \<Rightarrow> bool" where
  "row_ok a b m i rows \<longleftrightarrow>
     length (fst rows) = m + 1 \<and> length (snd rows) = m + 1 \<and>
     (\<forall>j\<le>m. fst rows ! j = lev_table a b i j)"

section \<open>Text operations of the Python runtime\<close>

text \<open>
  \<open>str.isspace\<close> of one code point, which is also what \<open>str.strip\<close> removes and what
  \<open>\s\<close> matches in a regular expression over \<open>str\<close>.
\<close>

definition isspace :: "nat \<Rightarrow> bool" where
  "isspace c \<longleftrightarrow>
     (0x09 \<le> c \<and> c \<le> 0x0D) \<or> (0x1C \<le> c \<and> c \<le> 0x20) \<or> c = 0x85 \<or> c = 0xA0 \<or>
     c = 0x1680 \<or> (0x2000 \<le> c \<and> c \<le> 0x200A) \<or> c = 0x2028 \<or> c = 0x2029 \<or>
     c = 0x202F \<or> c = 0x205F \<or> c = 0x3000"

definition lstrip :: "ustr \<Rightarrow> ustr" where
  "lstrip s = dropWhile isspace s"

definition rstrip :: "ustr \<Rightarrow> ustr" where
  "rstrip s = rev (dropWhile isspace (rev s))"

definition strip :: "ustr \<Rightarrow> ustr" where
  "strip s = rstrip (lstrip s)"

definition startswith :: "ustr \<Rightarrow> ustr \<Rightarrow> bool" where
  "startswith s pre \<longleftrightarrow> take (length pre) s = pre"

definition endswith :: "ustr \<Rightarrow> ustr \<Rightarrow> bool" where
  "endswith s suf \<longleftrightarrow> startswith (rev s) (rev suf)"

text \<open>\<open>sub in s\<close>.\<close>

fun contains :: "ustr \<Rightarrow> ustr \<Rightarrow> bool" where
  "contains [] sub = (sub = [])"
| "contains (c # cs) sub = (startswith (c # cs) sub \<or> contains cs sub)"

text \<open>
  \<open>s.split(sep, 1)\<close> for a non-empty separator that occurs in \<open>s\<close>: the text before and
  the text after the leftmost occurrence; \<open>None\<close> when \<open>sep\<close> does not occur.
\<close>

fun split_once :: "ustr \<Rightarrow> ustr \<Rightarrow> (ustr \<times> ustr) option" where
  "split_once [] sep = None"
| "split_once (c # cs) sep =
     (if startswith (c # cs) sep then Some ([], drop (length sep) (c # cs))
      else map_option (\<lambda>(l, r). (c # l, r)) (split_once cs sep))"

text \<open>\<open>s.replace(old, "")\<close> for a non-empty \<open>old\<close>: occurrences are removed left to right.\<close>

fun remove_all :: "ustr \<Rightarrow> ustr \<Rightarrow> ustr" where
  "remove_all [] old = []"
| "remove_all (c # cs) old =
     (if old \<noteq> [] \<and> startswith (c # cs) old
      then remove_all (drop (length old - 1) cs) old
      else c # remove_all cs old)"

text \<open>\<open>sep.join(xs)\<close>.\<close>

fun join :: "ustr \<Rightarrow> ustr list \<Rightarrow> ustr" where
  "join sep [] = []"
| "join sep [x] = x"
| "join sep (x # y # ys) = x @ sep @ join sep (y # ys)"

text \<open>
  \<open>\w\<close> in a regular expression over \<open>str\<close>: the underscore and every alphanumeric
  code point; the alphanumeric code points are a table of the runtime, the parameter
  \<open>isalnum\<close>. \<open>isalnum_ascii\<close> is that table on ASCII.
\<close>

definition isword :: "(nat \<Rightarrow> bool) \<Rightarrow> nat \<Rightarrow> bool" where
  "isword isalnum c \<longleftrightarrow> c = 0x5F \<or> isalnum c"

definition isalnum_ascii :: "nat \<Rightarrow> bool" where
  "isalnum_ascii c \<longleftrightarrow>
     (0x30 \<le> c \<and> c \<le> 0x39) \<or> (0x41 \<le> c \<and> c \<le> 0x5A) \<or> (0x61 \<le> c \<and> c \<le> 0x7A)"

text \<open>
  \<open>re.sub(r"\b" + word + r"\b", "", s)\<close> for a \<open>word\<close> made of word characters: an
  occurrence is removed when no word character stands directly before or after it.
  \<open>after_word\<close> tells whether the character before the current position is a word
  character.
\<close>

fun sub_word :: "(nat \<Rightarrow> bool) \<Rightarrow> ustr \<Rightarrow> bool \<Rightarrow> ustr \<Rightarrow> ustr" where
  "sub_word isalnum word after_word [] = []"
| "sub_word isalnum word after_word (c # cs) =
     (if word \<noteq> [] \<and> \<not> after_word \<and> startswith (c # cs) word \<and>
         (case drop (length word - 1) cs of [] \<Rightarrow> True | d # _ \<Rightarrow> \<not> isword isalnum d)
      then sub_word isalnum word True (drop (length word - 1) cs)
      else c # sub_word isalnum word (isword isalnum c) cs)"

text \<open>
  \<open>re.sub(r"\s+", " ", s)\<close>: every run of whitespace becomes one space. \<open>in_run\<close> tells
  whether the character before the current position is whitespace.
\<close>

fun collapse_from :: "bool \<Rightarrow> ustr \<Rightarrow> ustr" where
  "collapse_from in_run [] = []"
| "collapse_from in_run (c # cs) =
     (if isspace c then (if in_run then collapse_from True cs else 0x20 # collapse_from True cs)
      else c # collapse_from False cs)"

definition collapse_spaces :: "ustr \<Rightarrow> ustr" where
  "collapse_spaces s = collapse_from False s"

text \<open>
  \<open>re.search(r"\w+\s*\(", s) is not None\<close>: an opening parenthesis that follows a word
  character, with only whitespace between them. \<open>seen\<close> tells whether a word character
  and then only whitespace stand before the current position.
\<close>

fun search_word_paren :: "(nat \<Rightarrow> bool) \<Rightarrow> bool \<Rightarrow> ustr \<Rightarrow> bool" where
  "search_word_paren isalnum seen [] = False"
| "search_word_paren isalnum seen (c # cs) =
     (if c = 0x28 \<and> seen then True
      else search_word_paren isalnum (isword isalnum c \<or> (seen \<and> isspace c)) cs)"

section \<open>Queries (csig\_core.parse\_query)\<close>

record Query =
  q_name :: "ustr option"
  q_normalised_signature :: "ustr option"

text \<open>Python's truth value of an optional string: \<open>None\<close> and \<open>""\<close> are false.\<close>

definition truthy :: "ustr option \<Rightarrow> bool" where
  "truthy s = (case s of None \<Rightarrow> False | Some t \<Rightarrow> t \<noteq> [])"

definition or_None :: "ustr \<Rightarrow> ustr option" where
  "or_None s = (if s = [] then None else Some s)"

definition with_semicolon :: "ustr \<Rightarrow> ustr" where
  "with_semicolon sig_part =
     (if endswith (rstrip sig_part) (ustr '';'') then sig_part else sig_part @ ustr '';'')"

definition build_fake_declaration :: "(nat \<Rightarrow> bool) \<Rightarrow> ustr \<Rightarrow> ustr" where
  "build_fake_declaration isalnum sig_part =
     (if \<not> contains sig_part (ustr ''('') \<or> \<not> contains sig_part (ustr '')'')
      then with_semicolon sig_part
      else if contains sig_part (ustr ''__q__'') then with_semicolon sig_part
      else if search_word_paren isalnum False sig_part \<and> \<not> contains sig_part (ustr '' ('')
      then with_semicolon sig_part
      else
        (case split_once sig_part (ustr ''('') of
           None \<Rightarrow> with_semicolon sig_part
         | Some (ret, rest) \<Rightarrow>
             strip ret @ ustr '' __q__ '' @ strip (ustr ''('' @ rest) @ ustr '';''))"

text \<open>
  The normalization collaborator (libclang's tokenizer behind
  \<open>normalise_signature_with_language\<close>) is the parameter \<open>normalise\<close>: from the language
  and the declaration text to the token string, or to the exception it raises.
  \<open>normalise_signature\<close> is the call with language \<open>c\<close>. \<open>parse_query\<close> returns the calls it
  made to the collaborator, in order, and its result or the exception that leaves it.
\<close>

type_synonym exn = ustr
type_synonym normaliser = "ustr \<Rightarrow> ustr \<Rightarrow> exn + ustr"

definition clean_norm :: "(nat \<Rightarrow> bool) \<Rightarrow> ustr \<Rightarrow> ustr" where
  "clean_norm isalnum tokens =
     (let tokens = sub_word isalnum (ustr ''__q__'') False tokens;
          tokens = strip (remove_all tokens (ustr '' ;''));
          tokens = strip (collapse_spaces tokens)
      in tokens)"

definition parse_query ::
  "normaliser \<Rightarrow> (nat \<Rightarrow> bool) \<Rightarrow> ustr \<Rightarrow> (ustr \<times> ustr) list \<times> (exn + Query)" where
  "parse_query normalise isalnum query_str =
     (let (name, sig_part) =
            (case split_once query_str (ustr ''::'') of
               Some (name_part, sig_part) \<Rightarrow> (or_None (strip name_part), strip sig_part)
             | None \<Rightarrow> (None, strip query_str))
      in if sig_part = [] then ([], Inr \<lparr>q_name = name, q_normalised_signature = None\<rparr>)
         else
           let fake = build_fake_declaration isalnum sig_part in
           (case normalise (ustr ''c'') fake of
              Inr tokens \<Rightarrow>
                ([(ustr ''c'', fake)],
                 Inr \<lparr>q_name = name, q_normalised_signature = or_None (clean_norm isalnum tokens)\<rparr>)
            | Inl _ \<Rightarrow>
                (case normalise (ustr ''c++'') fake of
                   Inr tokens \<Rightarrow>
                     ([(ustr ''c'', fake), (ustr ''c++'', fake)],
                      Inr \<lparr>q_name = name,
                           q_normalised_signature = or_None (clean_norm isalnum tokens)\<rparr>)
                 | Inl e \<Rightarrow> ([(ustr ''c'', fake), (ustr ''c++'', fake)], Inl e))))"

section \<open>Ranking (csig.rank\_candidates)\<close>

text \<open>
  A candidate is the dictionary \<open>fetch_candidates\<close> builds from a row. The JSON text of
  the parameter list is represented by the list it encodes.
\<close>

record candidate =
  c_id :: int
  c_path :: ustr
  c_name :: ustr
  c_return_type :: ustr
  c_params :: "(ustr \<times> ustr option) list"
  c_signature_norm :: ustr
  c_line :: int
  c_column :: int

definition score :: "(ustr \<Rightarrow> ustr) \<Rightarrow> Query \<Rightarrow> candidate \<Rightarrow> int" where
  "score lower query row =
     (let score = 0;
          score = (if truthy (q_name query)
                   then score + levenshtein_distance lower (c_name row) (the (q_name query))
                   else score);
          score = (if truthy (q_normalised_signature query)
                   then score + levenshtein_distance lower (c_signature_norm row)
                                  (the (q_normalised_signature query))
                   else score)
      in score)"

definition rank_key :: "(ustr \<Rightarrow> ustr) \<Rightarrow> int \<times> candidate \<Rightarrow> int \<times> ustr \<times> ustr \<times> int \<times> int" where
  "rank_key lower item =
     (fst item, lower (c_name (snd item)), lower (c_path (snd item)),
      c_line (snd item), c_column (snd item))"

text \<open>\<open>list.sort(key=...)\<close> is a stable sort, as \<open>sort_key\<close> is.\<close>

definition rank_candidates ::
  "(ustr \<Rightarrow> ustr) \<Rightarrow> candidate list \<Rightarrow> Query \<Rightarrow> int \<Rightarrow> candidate list" where
  "rank_candidates lower candidates query top_n =
     (let scored = map (\<lambda>row. (score lower query row, row)) candidates;
          scored = sort_key (rank_key lower) scored
      in map snd (take (nat (max 0 top_n)) scored))"


section \<open>The persisted store (csig\_db)\<close>

text \<open>
  The two tables of the SQLite schema, as lists of rows in table order, and the
  \<open>AUTOINCREMENT\<close> counters of the two tables (the largest row id ever used). The column
  \<open>params_json\<close> holds the JSON text of the parameter list and is represented by the list
  that text encodes. Times are numbers that are only stored and compared.
\<close>

record Location =
  l_file_name :: ustr
  l_line :: int
  l_column :: int

record Function =
  f_name :: ustr
  f_location :: Location
  f_return_type :: ustr
  f_parameters :: "(ustr \<times> ustr option) list"
  f_is_variadic :: bool
  f_signature_norm :: "ustr option"

record file_row =
  fi_id :: int
  fi_path :: ustr
  fi_mtime :: real
  fi_size :: int
  fi_parsed_at :: "real option"
  fi_last_error :: "ustr option"

record function_row =
  fn_id :: int
  fn_file_id :: int
  fn_name :: ustr
  fn_return_type :: ustr
  fn_params_json :: "(ustr \<times> ustr option) list"
  fn_signature_norm :: ustr
  fn_line :: int
  fn_column :: int

record db =
  db_files :: "file_row list"
  db_functions :: "function_row list"
  db_files_seq :: int
  db_functions_seq :: int

text \<open>\<open>init_db\<close> on a fresh file: both tables empty.\<close>

definition empty_db :: db where
  "empty_db = \<lparr>db_files = [], db_functions = [], db_files_seq = 0, db_functions_seq = 0\<rparr>"

text \<open>
  The row id an \<open>INTEGER PRIMARY KEY AUTOINCREMENT\<close> column gives to an inserted row: one
  more than the largest id in the table and than the largest id ever used.
\<close>

definition next_rowid :: "int list \<Rightarrow> int \<Rightarrow> int" where
  "next_rowid ids seq = fold max ids seq + 1"

definition get_or_create_file :: "db \<Rightarrow> ustr \<Rightarrow> real \<Rightarrow> int \<Rightarrow> db \<times> int" where
  "get_or_create_file d path mtime sz =
     (case find (\<lambda>r. fi_path r = path) (db_files d) of
        Some row \<Rightarrow>
          (d\<lparr>db_files := map (\<lambda>r. if fi_id r = fi_id row
                                 then r\<lparr>fi_mtime := mtime, fi_size := sz\<rparr> else r) (db_files d)\<rparr>,
           fi_id row)
      | None \<Rightarrow>
          (let new_id = next_rowid (map fi_id (db_files d)) (db_files_seq d)
           in (d\<lparr>db_files := db_files d @
                    [\<lparr>fi_id = new_id, fi_path = path, fi_mtime = mtime, fi_size = sz,
                      fi_parsed_at = None, fi_last_error = None\<rparr>],
                  db_files_seq := new_id\<rparr>,
               new_id)))"

text \<open>The signature text stored for a function: its own, or the one built from its types.\<close>

definition stored_signature :: "Function \<Rightarrow> ustr" where
  "stored_signature function =
     (if truthy (f_signature_norm function) then the (f_signature_norm function)
      else
        let param_types = map fst (f_parameters function);
            param_types = (if f_is_variadic function then param_types @ [ustr ''...'']
                           else param_types)
        in f_return_type function @ ustr '' ( '' @ join (ustr '', '') param_types @ ustr '' )'')"

definition insert_function :: "int \<Rightarrow> Function \<Rightarrow> db \<Rightarrow> db" where
  "insert_function file_id function d =
     (let new_id = next_rowid (map fn_id (db_functions d)) (db_functions_seq d)
      in d\<lparr>db_functions := db_functions d @
              [\<lparr>fn_id = new_id, fn_file_id = file_id, fn_name = f_name function,
                fn_return_type = f_return_type function,
                fn_params_json = f_parameters function,
                fn_signature_norm = stored_signature function,
                fn_line = l_line (f_location function),
                fn_column = l_column (f_location function)\<rparr>],
            db_functions_seq := new_id\<rparr>)"

definition replace_functions_for_file :: "db \<Rightarrow> int \<Rightarrow> Function list \<Rightarrow> db" where
  "replace_functions_for_file d file_id fs =
     (let d = d\<lparr>db_functions := filter (\<lambda>r. fn_file_id r \<noteq> file_id) (db_functions d)\<rparr>
      in if fs = [] then d else fold (insert_function file_id) fs d)"

text \<open>\<open>time.time()\<close> is the argument \<open>now\<close>.\<close>

definition mark_file_parsed :: "real \<Rightarrow> db \<Rightarrow> int \<Rightarrow> real \<Rightarrow> int \<Rightarrow> db" where
  "mark_file_parsed now d file_id mtime sz =
     d\<lparr>db_files := map (\<lambda>r. if fi_id r = file_id
                           then r\<lparr>fi_mtime := mtime, fi_size := sz, fi_parsed_at := Some now,
                                  fi_last_error := None\<rparr>
                           else r) (db_files d)\<rparr>"

definition mark_file_error :: "real \<Rightarrow> db \<Rightarrow> int \<Rightarrow> real \<Rightarrow> int \<Rightarrow> ustr \<Rightarrow> db" where
  "mark_file_error now d file_id mtime sz error =
     d\<lparr>db_files := map (\<lambda>r. if fi_id r = file_id
                           then r\<lparr>fi_mtime := mtime, fi_size := sz, fi_parsed_at := Some now,
                                  fi_last_error := Some error\<rparr>
                           else r) (db_files d)\<rparr>"

text \<open>The dictionary comprehension over the rows: a later row of a path wins.\<close>

definition iter_file_states :: "db \<Rightarrow> (ustr \<rightharpoonup> real \<times> int)" where
  "iter_file_states d = map_of (rev (map (\<lambda>r. (fi_path r, (fi_mtime r, fi_size r))) (db_files d)))"

subsection \<open>Candidate fetch\<close>

text \<open>
  SQLite's \<open>LIKE\<close>: \<open>%\<close> matches any run of characters, \<open>_\<close> any one character, and any
  other character matches itself, letters of ASCII without regard to case.
\<close>

definition ascii_lower :: "nat \<Rightarrow> nat" where
  "ascii_lower c = (if 0x41 \<le> c \<and> c \<le> 0x5A then c + 0x20 else c)"

fun like :: "ustr \<Rightarrow> ustr \<Rightarrow> bool" where
  "like [] s = (s = [])"
| "like (p # ps) [] = (p = 0x25 \<and> like ps [])"
| "like (p # ps) (c # cs) =
     (if p = 0x25 then like ps (c # cs) \<or> like (p # ps) cs
      else (p = 0x5F \<or> ascii_lower p = ascii_lower c) \<and> like ps cs)"

text \<open>\<open>COLLATE NOCASE\<close> compares the texts with the letters of ASCII folded.\<close>

definition nocase :: "ustr \<Rightarrow> ustr" where
  "nocase s = map ascii_lower s"

text \<open>\<open>functions AS f JOIN files AS fi ON fi.id = f.file_id\<close>.\<close>

definition joined :: "db \<Rightarrow> (function_row \<times> file_row) list" where
  "joined d =
     concat (map (\<lambda>f. map (\<lambda>fi. (f, fi)) (filter (\<lambda>fi. fi_id fi = fn_file_id f) (db_files d)))
                 (db_functions d))"

definition order_key :: "function_row \<times> file_row \<Rightarrow> ustr \<times> ustr \<times> int \<times> int" where
  "order_key r = (nocase (fn_name (fst r)), nocase (fi_path (snd r)), fn_line (fst r),
                  fn_column (fst r))"

text \<open>\<open>LIMIT n\<close>: a negative \<open>n\<close> is no limit.\<close>

definition sql_limit :: "int \<Rightarrow> 'a list \<Rightarrow> 'a list" where
  "sql_limit n rows = (if n < 0 then rows else take (nat n) rows)"

text \<open>
  The \<open>SELECT\<close> of \<open>fetch_candidates\<close> with a given \<open>WHERE\<close> condition. Rows that agree on
  all four \<open>ORDER BY\<close> keys are kept in table order.
\<close>

definition select_candidates ::
  "(function_row \<Rightarrow> bool) \<Rightarrow> int \<Rightarrow> db \<Rightarrow> (function_row \<times> file_row) list" where
  "select_candidates cond limit d =
     sql_limit limit (sort_key order_key (filter (\<lambda>r. cond (fst r)) (joined d)))"

definition like_contains :: "ustr \<Rightarrow> ustr \<Rightarrow> bool" where
  "like_contains needle s = like (ustr ''%'' @ needle @ ustr ''%'') s"

definition where_clause :: "Query \<Rightarrow> (function_row \<Rightarrow> bool) option" where
  "where_clause query =
     (if truthy (q_name query) \<and> truthy (q_normalised_signature query)
      then Some (\<lambda>f. like_contains (the (q_name query)) (fn_name f) \<or>
                     like_contains (the (q_normalised_signature query)) (fn_signature_norm f))
      else if truthy (q_name query)
      then Some (\<lambda>f. like_contains (the (q_name query)) (fn_name f))
      else if truthy (q_normalised_signature query)
      then Some (\<lambda>f. like_contains (the (q_normalised_signature query)) (fn_signature_norm f))
      else None)"

definition to_candidate :: "function_row \<times> file_row \<Rightarrow> candidate" where
  "to_candidate r =
     \<lparr>c_id = fn_id (fst r), c_path = fi_path (snd r), c_name = fn_name (fst r),
      c_return_type = fn_return_type (fst r), c_params = fn_params_json (fst r),
      c_signature_norm = fn_signature_norm (fst r), c_line = fn_line (fst r),
      c_column = fn_column (fst r)\<rparr>"

definition fetch_candidates :: "db \<Rightarrow> Query \<Rightarrow> int \<Rightarrow> candidate list" where
  "fetch_candidates d query limit =
     (let wh = where_clause query;
          rows = select_candidates (case wh of None \<Rightarrow> (\<lambda>f. True) | Some cond \<Rightarrow> cond) limit d;
          rows = (if rows = [] \<and> wh \<noteq> None then select_candidates (\<lambda>f. True) limit d
                  else rows)
      in map to_candidate rows)"

section \<open>Progress tracking (csig\_indexer.\_ProgressTracker)\<close>

datatype counter =
  Files_total | Files_queued | Files_done | Files_skipped | Files_indexed | Files_failed
  | Functions_total

record progress =
  files_total :: int
  files_queued :: int
  files_done :: int
  files_skipped :: int
  files_indexed :: int
  files_failed :: int
  functions_total :: int
  running :: bool
  canceled :: bool
  start_time :: "real option"
  end_time :: "real option"

definition initial_progress :: progress where
  "initial_progress =
     \<lparr>files_total = 0, files_queued = 0, files_done = 0, files_skipped = 0, files_indexed = 0,
      files_failed = 0, functions_total = 0, running = False, canceled = False,
      start_time = None, end_time = None\<rparr>"

fun get_counter :: "counter \<Rightarrow> progress \<Rightarrow> int" where
  "get_counter Files_total p = files_total p"
| "get_counter Files_queued p = files_queued p"
| "get_counter Files_done p = files_done p"
| "get_counter Files_skipped p = files_skipped p"
| "get_counter Files_indexed p = files_indexed p"
| "get_counter Files_failed p = files_failed p"
| "get_counter Functions_total p = functions_total p"

fun set_counter :: "counter \<Rightarrow> int \<Rightarrow> progress \<Rightarrow> progress" where
  "set_counter Files_total v p = p\<lparr>files_total := v\<rparr>"
| "set_counter Files_queued v p = p\<lparr>files_queued := v\<rparr>"
| "set_counter Files_done v p = p\<lparr>files_done := v\<rparr>"
| "set_counter Files_skipped v p = p\<lparr>files_skipped := v\<rparr>"
| "set_counter Files_indexed v p = p\<lparr>files_indexed := v\<rparr>"
| "set_counter Files_failed v p = p\<lparr>files_failed := v\<rparr>"
| "set_counter Functions_total v p = p\<lparr>functions_total := v\<rparr>"

text \<open>
  \<open>inc(**increments)\<close>: under the lock, every named counter moves by its delta; the
  state after the call is what an observer can see.
\<close>

definition inc :: "(counter \<times> int) list \<Rightarrow> progress \<Rightarrow> progress" where
  "inc increments p =
     fold (\<lambda>(key, delta) p. set_counter key (get_counter key p + delta) p) increments p"

section \<open>The Writer (csig\_indexer.\_writer\_loop)\<close>

text \<open>The dictionary a worker puts on the Result Queue.\<close>

record parse_result =
  r_path :: ustr
  r_mtime :: real
  r_size :: int
  r_functions :: "Function list"
  r_error :: "ustr option"

text \<open>One pass of the loop body for a result that is not a sentinel.\<close>

definition writer_apply :: "real \<Rightarrow> parse_result \<Rightarrow> db \<times> progress \<Rightarrow> db \<times> progress" where
  "writer_apply now item st =
     (let (d, file_id) = get_or_create_file (fst st) (r_path item) (r_mtime item) (r_size item)
      in if truthy (r_error item)
         then (mark_file_error now d file_id (r_mtime item) (r_size item) (the (r_error item)),
               inc [(Files_failed, 1), (Files_done, 1)] (snd st))
         else (mark_file_parsed now (replace_functions_for_file d file_id (r_functions item))
                 file_id (r_mtime item) (r_size item),
               inc [(Files_indexed, 1), (Files_done, 1),
                    (Functions_total, int (length (r_functions item)))] (snd st)))"

text \<open>
  The loop over the items taken from the Result Queue, in order: \<open>None\<close> is a worker's
  sentinel. The loop stops once \<open>workers\<close> sentinels are counted; an item list that ends
  before that leaves the Writer waiting on the queue (\<open>w_stopped\<close> is false). \<open>clock k\<close> is
  the time at the \<open>k\<close>-th item.
\<close>

record writer_state =
  w_db :: db
  w_progress :: progress
  w_finished :: nat
  w_taken :: nat
  w_stopped :: bool

fun writer_loop ::
  "(nat \<Rightarrow> real) \<Rightarrow> nat \<Rightarrow> parse_result option list \<Rightarrow> writer_state \<Rightarrow> writer_state" where
  "writer_loop clock workers items w =
     (if \<not> w_finished w < workers then w\<lparr>w_stopped := True\<rparr>
      else
        (case items of
           [] \<Rightarrow> w
         | None # rest \<Rightarrow>
             writer_loop clock workers rest
               (w\<lparr>w_finished := w_finished w + 1, w_taken := w_taken w + 1\<rparr>)
         | Some item # rest \<Rightarrow>
             (let (d, p) = writer_apply (clock (w_taken w)) item (w_db w, w_progress w)
              in writer_loop clock workers rest
                   (w\<lparr>w_db := d, w_progress := p, w_taken := w_taken w + 1\<rparr>))))"

text \<open>The function records the join associates with a path.\<close>

definition functions_for_path :: "db \<Rightarrow> ustr \<Rightarrow> function_row list" where
  "functions_for_path d path =
     filter (\<lambda>f. \<exists>fi\<in>set (db_files d). fi_id fi = fn_file_id f \<and> fi_path fi = path)
       (db_functions d)"

definition file_for_path :: "db \<Rightarrow> ustr \<Rightarrow> file_row option" where
  "file_for_path d path = find (\<lambda>r. fi_path r = path) (db_files d)"

text \<open>
  What the schema and the Writer keep true of the store: row ids and paths are unique,
  every function row belongs to a file row, and no function row id exceeds the
  \<open>AUTOINCREMENT\<close> counter of its table.
\<close>

definition wf_db :: "db \<Rightarrow> bool" where
  "wf_db d \<longleftrightarrow>
     distinct (map fi_id (db_files d)) \<and> distinct (map fi_path (db_files d)) \<and>
     distinct (map fn_id (db_functions d)) \<and>
     list_all (\<lambda>f. fn_file_id f \<in> fi_id ` set (db_files d)) (db_functions d) \<and>
     list_all (\<lambda>f. fn_id f \<le> db_functions_seq d) (db_functions d)"

text \<open>The columns of a function row that come from the parsed function.\<close>

definition row_of_function :: "int \<Rightarrow> int \<Rightarrow> Function \<Rightarrow> function_row" where
  "row_of_function row_id file_id function =
     \<lparr>fn_id = row_id, fn_file_id = file_id, fn_name = f_name function,
      fn_return_type = f_return_type function, fn_params_json = f_parameters function,
      fn_signature_norm = stored_signature function,
      fn_line = l_line (f_location function), fn_column = l_column (f_location function)\<rparr>"

section \<open>Example data\<close>

definition cand_add :: candidate where
  "cand_add =
     \<lparr>c_id = 2, c_path = ustr ''a.c'', c_name = ustr ''add'', c_return_type = ustr ''int'',
      c_params = [(ustr ''int'', Some (ustr ''x''))],
      c_signature_norm = ustr ''int ( int , int )'', c_line = 10, c_column = 1\<rparr>"

definition cand_subtract :: candidate where
  "cand_subtract =
     \<lparr>c_id = 1, c_path = ustr ''a.c'', c_name = ustr ''subtract'', c_return_type = ustr ''int'',
      c_params = [(ustr ''int'', Some (ustr ''x''))],
      c_signature_norm = ustr ''int ( int , int )'', c_line = 20, c_column = 1\<rparr>"

definition query_add :: Query where
  "query_add =
     \<lparr>q_name = Some (ustr ''add''), q_normalised_signature = Some (ustr ''int ( int , int )'')\<rparr>"

text \<open>A normalization collaborator that raises on every call.\<close>

definition normalise_raises :: normaliser where
  "normalise_raises language text = Inl (ustr ''error'')"

(*DEFS-END*)

section \<open>Properties of the edit distance\<close>

lemma lev_table_0: "lev_table a b i 0 = int i"
  by (cases i) auto

lemma lev_table_sym: "lev_table a b i j = lev_table b a j i"
  by (induction a b i j rule: lev_table.induct)
    (auto simp: lev_table_0 min.commute min.left_commute eq_commute)

lemma lev_table_nonneg: "0 \<le> lev_table a b i j"
  by (induction a b i j rule: lev_table.induct) auto

lemma lev_table_diag: "lev_table a a i i = 0"
proof (induction i)
  case 0
  show ?case by simp
next
  case (Suc i)
  have "lev_table a a (Suc i) (Suc i) \<le> 0" using Suc by simp
  with lev_table_nonneg[of a a "Suc i" "Suc i"] show ?case by linarith
qed

text \<open>The inner loop fills the current row up to column \<open>k\<close>, whatever the row held before.\<close>

lemma lev_inner_loop:
  assumes prev: "length prev = m + 1" "\<forall>j\<le>m. prev ! j = lev_table a b i j"
    and cur: "length cur = m + 1" "cur ! 0 = int (Suc i)"
    and k: "k \<le> m"
  shows "length (fold (lev_cell (a ! i) b prev) [1..<k + 1] cur) = m + 1 \<and>
         (\<forall>j\<le>k. fold (lev_cell (a ! i) b prev) [1..<k + 1] cur ! j = lev_table a b (Suc i) j)"
  using k
proof (induction k)
  case 0
  then show ?case using cur by simp
next
  case (Suc k)
  let ?c = "fold (lev_cell (a ! i) b prev) [1..<k + 1] cur"
  from Suc have IH: "length ?c = m + 1" "\<forall>j\<le>k. ?c ! j = lev_table a b (Suc i) j" by auto
  have step: "fold (lev_cell (a ! i) b prev) [1..<Suc k + 1] cur
      = lev_cell (a ! i) b prev (Suc k) ?c"
    by simp
  have len: "length (lev_cell (a ! i) b prev (Suc k) ?c) = m + 1"
    using IH(1) by (simp add: lev_cell_def Let_def)
  have new: "lev_cell (a ! i) b prev (Suc k) ?c ! Suc k = lev_table a b (Suc i) (Suc k)"
    using IH Suc.prems prev by (simp add: lev_cell_def Let_def)
  have old: "\<forall>j\<le>k. lev_cell (a ! i) b prev (Suc k) ?c ! j = lev_table a b (Suc i) j"
    using IH by (simp add: lev_cell_def Let_def)
  show ?case unfolding step using len new old by (auto simp: le_Suc_eq)
qed

lemma lev_row_ok:
  assumes "row_ok a b m i rows"
  shows "row_ok a b m (Suc i) (lev_row a b m (Suc i) rows)"
proof -
  have c: "length ((snd rows)[0 := int (Suc i)]) = m + 1"
    "(snd rows)[0 := int (Suc i)] ! 0 = int (Suc i)"
    using assms by (auto simp: row_ok_def)
  have p: "length (fst rows) = m + 1" "\<forall>j\<le>m. fst rows ! j = lev_table a b i j"
    using assms by (auto simp: row_ok_def)
  from lev_inner_loop[OF p c order_refl] p show ?thesis
    by (simp add: lev_row_def Let_def row_ok_def)
qed

lemma lev_outer_loop:
  assumes "row_ok a b m 0 rows"
  shows "row_ok a b m k (fold (lev_row a b m) [1..<k + 1] rows)"
proof (induction k)
  case 0
  show ?case using assms by simp
next
  case (Suc k)
  then show ?case using lev_row_ok[of a b m k] by simp
qed

lemma levenshtein_bytes_table:
  "levenshtein_bytes a b = lev_table a b (length a) (length b)"
proof -
  have init: "row_ok a b (length b) 0 (map int [0..<length b + 1], replicate (length b + 1) 0)"
    by (auto simp: row_ok_def nth_append simp del: upt_Suc)
  from lev_outer_loop[OF init, of "length a"] show ?thesis
    by (auto simp: levenshtein_bytes_def Let_def row_ok_def lev_table_0)
qed

lemma levenshtein_bytes_sym: "levenshtein_bytes a b = levenshtein_bytes b a"
  by (simp add: levenshtein_bytes_table lev_table_sym[of a b])

lemma levenshtein_bytes_same: "levenshtein_bytes a a = 0"
  by (simp add: levenshtein_bytes_table lev_table_diag)

lemma levenshtein_bytes_empty: "levenshtein_bytes [] b = int (length b)"
  by (simp add: levenshtein_bytes_def)

lemma encode_ascii: "\<forall>c\<in>set s. c < 0x80 \<Longrightarrow> encode_utf8_ignore s = s"
  by (induction s) (auto simp: encode_utf8_ignore_def encode_cp_def)

text \<open>
  Claim C9. For all strings \<open>a\<close> and \<open>b\<close> the edit distance from \<open>a\<close> to \<open>b\<close> is the edit
  distance from \<open>b\<close> to \<open>a\<close>, and the edit distance from \<open>a\<close> to itself is 0. This holds
  for every lowercase mapping.
\<close>

theorem levenshtein_distance_symmetric_and_reflexive:
  "levenshtein_distance lower a b = levenshtein_distance lower b a \<and>
   levenshtein_distance lower a a = 0"
  by (simp add: levenshtein_distance_def levenshtein_bytes_same
      levenshtein_bytes_sym[of "encode_utf8_ignore (lower a)"])

text \<open>
  Claim C5, as stated: the edit distance from the empty string to \<open>b\<close> is \<open>len(b)\<close>, the
  number of code points of \<open>b\<close>. It fails for the one-character string U+00E9, whose
  UTF-8 encoding has two bytes.
\<close>

theorem levenshtein_empty_len_counterexample:
  "levenshtein_distance lower_latin1 [] [0xE9] \<noteq> int (length [0xE9::nat])"
  by (simp add: levenshtein_distance_def levenshtein_bytes_def lower_latin1_def
      lower_cp_latin1_def encode_utf8_ignore_def encode_cp_def)

text \<open>
  Claim C5, amended: the edit distance from the empty string to \<open>b\<close> is the number of
  bytes of the UTF-8 encoding of the lowercased \<open>b\<close> (surrogates dropped); it is
  \<open>len(b)\<close> when lowercasing keeps the length of \<open>b\<close> and yields ASCII only.
\<close>

theorem levenshtein_empty_byte_length:
  assumes "lower [] = []"
  shows "levenshtein_distance lower [] b = int (length (encode_utf8_ignore (lower b))) \<and>
    (length (lower b) = length b \<and> (\<forall>c\<in>set (lower b). c < 0x80) \<longrightarrow>
       levenshtein_distance lower [] b = int (length b))"
  using assms
  by (auto simp: levenshtein_distance_def encode_utf8_ignore_def levenshtein_bytes_empty
      encode_ascii[unfolded encode_utf8_ignore_def])

theorem levenshtein_empty_byte_length_witness:
  "lower_latin1 [] = [] \<and>
   length (lower_latin1 (ustr ''Abc'')) = length (ustr ''Abc'') \<and>
   list_all (\<lambda>c. c < 0x80) (lower_latin1 (ustr ''Abc'')) \<and>
   levenshtein_distance lower_latin1 [] (ustr ''Abc'') = 3"
  using levenshtein_empty_byte_length[of lower_latin1 "ustr ''Abc''"]
  by (simp add: lower_latin1_def lower_cp_latin1_def ustr_def)

section \<open>Properties of query parsing\<close>

lemma startswith_append_self: "startswith (sep @ r) sep"
  by (simp add: startswith_def)

lemma startswith_long:
  "length sep \<le> length xs \<Longrightarrow> startswith (xs @ ys) sep = startswith xs sep"
  by (simp add: startswith_def)

text \<open>\<open>split_once\<close> cuts at the leftmost occurrence of the separator.\<close>

lemma split_once_first:
  assumes "sep \<noteq> []" "\<not> contains (l @ butlast sep) sep"
  shows "split_once (l @ sep @ r) sep = Some (l, r)"
  using assms(2)
proof (induction l)
  case Nil
  obtain c cs where sep: "sep = c # cs" using assms(1) by (cases sep) auto
  have "startswith (c # cs @ r) (c # cs)" using startswith_append_self[of "c # cs" r] by simp
  then show ?case unfolding sep by (simp add: startswith_def)
next
  case (Cons a l)
  have len: "length sep \<le> length ((a # l) @ butlast sep)" by simp
  have "sep @ r = butlast sep @ (last sep # r)"
    using append_butlast_last_id[OF assms(1)] by (metis append.assoc append_Cons append_Nil)
  then have eq: "(a # l) @ sep @ r = ((a # l) @ butlast sep) @ (last sep # r)"
    by simp
  from Cons.prems have ns: "\<not> startswith ((a # l) @ butlast sep) sep"
    and nc: "\<not> contains (l @ butlast sep) sep"
    by auto
  have "\<not> startswith ((a # l) @ sep @ r) sep"
    unfolding eq using startswith_long[OF len] ns by simp
  then show ?case using Cons.IH[OF nc] by simp
qed

lemma strip_blank: "list_all isspace s \<Longrightarrow> strip s = []"
proof -
  assume "list_all isspace s"
  then have "dropWhile isspace s = []" by (simp add: list_all_iff dropWhile_eq_Nil_conv)
  then show ?thesis by (simp only: strip_def lstrip_def rstrip_def rev.simps dropWhile.simps)
qed

text \<open>
  Claim C8. When the text after the (leftmost) \<open>::\<close> of the query is blank, \<open>parse_query\<close>
  returns the query with the stripped name (or \<open>None\<close> when that is empty) and no
  normalised signature, and makes no call to the normalization collaborator, whatever
  that collaborator would do. For \<open>"foo ::   "\<close> the name is \<open>"foo"\<close> (the witness).
\<close>

theorem parse_query_blank_signature:
  assumes "query_str = name_part @ ustr ''::'' @ sig_part"
    and "\<not> contains (name_part @ ustr '':'') (ustr ''::'')"
    and "list_all isspace sig_part"
  shows "parse_query normalise isalnum query_str =
           ([], Inr \<lparr>q_name = or_None (strip name_part), q_normalised_signature = None\<rparr>)"
proof -
  have "split_once query_str (ustr ''::'') = Some (name_part, sig_part)"
    unfolding assms(1) using split_once_first[of "ustr ''::''" name_part sig_part] assms(2)
    by (simp add: ustr_def)
  then show ?thesis using strip_blank[OF assms(3)]
    by (simp add: parse_query_def)
qed

theorem parse_query_blank_signature_witness:
  "ustr ''foo ::   '' = ustr ''foo '' @ ustr ''::'' @ ustr ''   '' \<and>
   \<not> contains (ustr ''foo '' @ ustr '':'') (ustr ''::'') \<and>
   list_all isspace (ustr ''   '') \<and>
   parse_query normalise_raises isalnum_ascii (ustr ''foo ::   '') =
     ([], Inr \<lparr>q_name = Some (ustr ''foo''), q_normalised_signature = None\<rparr>)"
  using parse_query_blank_signature[of "ustr ''foo ::   ''" "ustr ''foo ''" "ustr ''   ''"
      normalise_raises isalnum_ascii]
  by (simp add: ustr_def startswith_def isspace_def strip_def lstrip_def rstrip_def or_None_def)

section \<open>Properties of ranking\<close>

lemma insort_key_map:
  "insort_key f (g x) (map g ys) = map g (insort_key (\<lambda>a. f (g a)) x ys)"
  by (induction ys) auto

lemma sort_key_map: "sort_key f (map g xs) = map g (sort_key (\<lambda>a. f (g a)) xs)"
  by (induction xs) (auto simp: insort_key_map)

lemma rank_candidates_eq:
  "rank_candidates lower cs q top_n =
     take (nat (max 0 top_n)) (sort_key (\<lambda>row. rank_key lower (score lower q row, row)) cs)"
  by (simp add: rank_candidates_def Let_def sort_key_map take_map[symmetric] comp_def)

lemma rank_example:
  "rank_candidates lower_latin1 [cand_subtract, cand_add] query_add 1 = [cand_add]"
  by code_simp

text \<open>
  Claim C4. For a non-negative \<open>top\<close>, \<open>rank_candidates\<close> returns the first \<open>top\<close> entries
  (all of them when there are fewer) of the candidates sorted, stably, by
  (score, lowercased name, lowercased path, line, column). The output is ascending in that
  key, every candidate left out has a key at least as large as every candidate returned,
  and ranking the output again returns it unchanged.
\<close>

theorem rank_candidates_sorted_prefix:
  assumes "0 \<le> top_n"
  shows "(let key = (\<lambda>row. rank_key lower (score lower query row, row));
             out = rank_candidates lower candidates query top_n
          in out = take (nat top_n) (sort_key key candidates) \<and>
             sorted (map key out) \<and>
             length out = min (nat top_n) (length candidates) \<and>
             (\<exists>rest. mset (out @ rest) = mset candidates \<and>
                (\<forall>x\<in>set out. \<forall>y\<in>set rest. key x \<le> key y)) \<and>
             rank_candidates lower out query top_n = out)"
proof -
  let ?key = "\<lambda>row. rank_key lower (score lower query row, row)"
  let ?s = "sort_key ?key candidates"
  let ?n = "nat top_n"
  have n: "nat (max 0 top_n) = ?n" using assms by simp
  have out: "rank_candidates lower candidates query top_n = take ?n ?s"
    by (simp add: rank_candidates_eq n)
  have srt: "sorted (map ?key ?s)" by (rule sorted_sort_key)
  have s1: "sorted (map ?key (take ?n ?s))"
    using sorted_wrt_take[OF srt, of ?n] by (simp add: take_map)
  have len: "length (take ?n ?s) = min (nat top_n) (length candidates)" by simp
  have split: "take ?n ?s @ drop ?n ?s = ?s" by simp
  have m: "mset (take ?n ?s @ drop ?n ?s) = mset candidates" unfolding split by simp
  have "sorted (map ?key (take ?n ?s) @ map ?key (drop ?n ?s))"
    using srt by (metis map_append split)
  then have le: "\<forall>x\<in>set (take ?n ?s). \<forall>y\<in>set (drop ?n ?s). ?key x \<le> ?key y"
    by (auto simp: sorted_append)
  have idem: "rank_candidates lower (take ?n ?s) query top_n = take ?n ?s"
    using s1 by (simp add: rank_candidates_eq n sort_key_id_if_sorted)
  show ?thesis unfolding Let_def out using s1 len m le idem by blast
qed

theorem rank_candidates_sorted_prefix_witness:
  "(0::int) \<le> 1 \<and>
   rank_candidates lower_latin1 [cand_subtract, cand_add] query_add 1 = [cand_add] \<and>
   rank_candidates lower_latin1 [cand_add] query_add 1 = [cand_add]"
  using rank_candidates_sorted_prefix[of 1 lower_latin1 query_add "[cand_subtract, cand_add]"]
  unfolding Let_def rank_example by simp

section \<open>Properties of the store\<close>

declare writer_loop.simps [simp del]

lemma fold_max_ge_seq: "seq \<le> fold max ids (seq::int)"
proof (induction ids arbitrary: seq)
  case Nil then show ?case by simp
next
  case (Cons a ids)
  have "max a seq \<le> fold max ids (max a seq)" by (rule Cons.IH)
  then show ?case by simp
qed

lemma fold_max_ge: "x \<in> set ids \<Longrightarrow> x \<le> fold max ids (seq::int)"
proof (induction ids arbitrary: seq)
  case Nil then show ?case by simp
next
  case (Cons a ids)
  show ?case
  proof (cases "x = a")
    case True
    have "max a seq \<le> fold max ids (max a seq)" by (rule fold_max_ge_seq)
    then show ?thesis using True by simp
  next
    case False
    then show ?thesis using Cons by simp
  qed
qed

lemma next_rowid_fresh: "x \<in> set ids \<Longrightarrow> x < next_rowid ids seq"
  using fold_max_ge[of x ids seq] by (simp add: next_rowid_def)

lemma find_path_None: "find (\<lambda>r. fi_path r = p) rows = None \<longleftrightarrow> p \<notin> fi_path ` set rows"
  by (auto simp: find_None_iff)

lemma find_path_Some:
  "find (\<lambda>r. fi_path r = p) rows = Some row \<Longrightarrow> row \<in> set rows \<and> fi_path row = p"
  by (auto simp: find_Some_iff)

lemma find_unique:
  assumes "distinct (map fi_path rows)" "row \<in> set rows"
  shows "find (\<lambda>r. fi_path r = fi_path row) rows = Some row"
  using assms by (induction rows) (auto simp: image_iff)

text \<open>Updating the rows with one id keeps ids and paths.\<close>

lemma map_update_ids:
  "(\<And>r. fi_id (g r) = fi_id r) \<Longrightarrow> map fi_id (map (\<lambda>r. if c r then g r else r) rows) = map fi_id rows"
  by (induction rows) auto

lemma map_update_paths:
  "(\<And>r. fi_path (g r) = fi_path r) \<Longrightarrow> map fi_path (map (\<lambda>r. if c r then g r else r) rows) = map fi_path rows"
  by (induction rows) auto

lemma find_map_update:
  assumes "\<And>r. fi_path (g r) = fi_path r"
  shows "find (\<lambda>r. fi_path r = p) (map (\<lambda>r. if c r then g r else r) rows) =
         map_option (\<lambda>r. if c r then g r else r) (find (\<lambda>r. fi_path r = p) rows)"
  using assms by (induction rows) auto

lemma in_keys_iff:
  "(\<exists>fi\<in>set rows. fi_id fi = i \<and> fi_path fi = p) \<longleftrightarrow> (i, p) \<in> (\<lambda>r. (fi_id r, fi_path r)) ` set rows"
  by (auto simp: image_iff)

lemma functions_for_path_cong:
  assumes "db_functions d' = db_functions d"
    and "(\<lambda>r. (fi_id r, fi_path r)) ` set (db_files d') = (\<lambda>r. (fi_id r, fi_path r)) ` set (db_files d)"
  shows "functions_for_path d' p = functions_for_path d p"
  unfolding functions_for_path_def in_keys_iff assms ..

lemma keys_map_update:
  assumes "\<And>r. fi_path (g r) = fi_path r" "\<And>r. fi_id (g r) = fi_id r"
  shows "(\<lambda>r. (fi_id r, fi_path r)) ` set (map (\<lambda>r. if c r then g r else r) rows) = (\<lambda>r. (fi_id r, fi_path r)) ` set rows"
proof -
  have h: "map (\<lambda>r. (fi_id r, fi_path r)) (map (\<lambda>r. if c r then g r else r) rows) = map (\<lambda>r. (fi_id r, fi_path r)) rows"
    using assms by (induction rows) auto
  show ?thesis unfolding image_set by (rule arg_cong[where f=set, OF h])
qed


lemma find_append_path:
  "find P (xs @ ys) = (case find P xs of None \<Rightarrow> find P ys | Some x \<Rightarrow> Some x)"
  by (induction xs) auto

lemma goc_existing:
  assumes "find (\<lambda>r. fi_path r = p) (db_files d) = Some row"
  shows "get_or_create_file d p m sz =
    (d\<lparr>db_files := map (\<lambda>r. if fi_id r = fi_id row then r\<lparr>fi_mtime := m, fi_size := sz\<rparr> else r) (db_files d)\<rparr>,
     fi_id row)"
  using assms by (simp add: get_or_create_file_def)

lemma goc_new:
  assumes "find (\<lambda>r. fi_path r = p) (db_files d) = None"
  shows "get_or_create_file d p m sz =
    (d\<lparr>db_files := db_files d @ [\<lparr>fi_id = next_rowid (map fi_id (db_files d)) (db_files_seq d), fi_path = p,
           fi_mtime = m, fi_size = sz, fi_parsed_at = None, fi_last_error = None\<rparr>],
        db_files_seq := next_rowid (map fi_id (db_files d)) (db_files_seq d)\<rparr>,
     next_rowid (map fi_id (db_files d)) (db_files_seq d))"
  using assms by (simp add: get_or_create_file_def Let_def)

lemma goc_functions: "db_functions (fst (get_or_create_file d p m sz)) = db_functions d"
  by (simp add: get_or_create_file_def Let_def split: option.splits)

lemma goc_functions_seq: "db_functions_seq (fst (get_or_create_file d p m sz)) = db_functions_seq d"
  by (simp add: get_or_create_file_def Let_def split: option.splits)

lemma next_rowid_notin: "next_rowid (map fi_id rows) seq \<notin> fi_id ` set rows"
proof
  assume "next_rowid (map fi_id rows) seq \<in> fi_id ` set rows"
  then have "next_rowid (map fi_id rows) seq \<in> set (map fi_id rows)" by simp
  from next_rowid_fresh[OF this, of seq] show False by simp
qed

lemma goc_wf:
  assumes "wf_db d"
  shows "wf_db (fst (get_or_create_file d p m sz))"
proof (cases "find (\<lambda>r. fi_path r = p) (db_files d)")
  case None
  then have np: "p \<notin> fi_path ` set (db_files d)" by (simp add: find_path_None)
  show ?thesis using assms np next_rowid_notin[of "db_files d" "db_files_seq d"]
    by (auto simp: goc_new[OF None] wf_db_def list_all_iff)
next
  case (Some row)
  let ?u = "\<lambda>r. if fi_id r = fi_id row then r\<lparr>fi_mtime := m, fi_size := sz\<rparr> else r"
  have ids: "map fi_id (map ?u (db_files d)) = map fi_id (db_files d)"
    by (rule map_update_ids) simp
  have paths: "map fi_path (map ?u (db_files d)) = map fi_path (db_files d)"
    by (rule map_update_paths) simp
  have img: "fi_id ` set (map ?u (db_files d)) = fi_id ` set (db_files d)"
    unfolding image_set ids ..
  show ?thesis using assms
    unfolding goc_existing[OF Some] wf_db_def
    by (simp add: ids paths img list_all_iff del: map_map set_map)
qed

lemma goc_file_new:
  assumes None: "find (\<lambda>r. fi_path r = p) (db_files d) = None"
  shows "file_for_path (fst (get_or_create_file d p m sz)) p =
      Some \<lparr>fi_id = next_rowid (map fi_id (db_files d)) (db_files_seq d), fi_path = p,
           fi_mtime = m, fi_size = sz, fi_parsed_at = None, fi_last_error = None\<rparr>"
  unfolding goc_new[OF None] file_for_path_def by (simp add: find_append_path None)

lemma goc_file_existing:
  assumes Some: "find (\<lambda>r. fi_path r = p) (db_files d) = Some row"
  shows "file_for_path (fst (get_or_create_file d p m sz)) p =
      Some (row\<lparr>fi_mtime := m, fi_size := sz\<rparr>)"
proof -
  let ?u = "\<lambda>r. if fi_id r = fi_id row then r\<lparr>fi_mtime := m, fi_size := sz\<rparr> else r"
  have "find (\<lambda>r. fi_path r = p) (map ?u (db_files d)) =
        map_option ?u (find (\<lambda>r. fi_path r = p) (db_files d))"
    by (rule find_map_update) simp
  also have "\<dots> = Some (row\<lparr>fi_mtime := m, fi_size := sz\<rparr>)"
    unfolding Some by simp
  finally have *: "find (\<lambda>r. fi_path r = p) (map ?u (db_files d)) = Some (row\<lparr>fi_mtime := m, fi_size := sz\<rparr>)" .
  have sel: "db_files (d\<lparr>db_files := map ?u (db_files d)\<rparr>) = map ?u (db_files d)" by simp
  show ?thesis
    unfolding goc_existing[OF Some] file_for_path_def fst_conv sel by (rule *)
qed


lemma goc_snd_existing:
  "find (\<lambda>r. fi_path r = p) (db_files d) = Some row \<Longrightarrow> snd (get_or_create_file d p m sz) = fi_id row"
  by (simp only: goc_existing snd_conv)

lemma goc_snd_new:
  "find (\<lambda>r. fi_path r = p) (db_files d) = None \<Longrightarrow>
   snd (get_or_create_file d p m sz) = next_rowid (map fi_id (db_files d)) (db_files_seq d)"
  by (simp only: goc_new snd_conv)

lemma goc_file_ex: "\<exists>row. file_for_path (fst (get_or_create_file d p m sz)) p = Some row"
proof (cases "find (\<lambda>r. fi_path r = p) (db_files d)")
  case None
  show ?thesis by (rule exI) (rule goc_file_new[OF None])
next
  case (Some row)
  show ?thesis by (rule exI) (rule goc_file_existing[OF Some])
qed

lemma goc_file:
  assumes "file_for_path (fst (get_or_create_file d p m sz)) p = Some row"
  shows "fi_id row = snd (get_or_create_file d p m sz) \<and> fi_path row = p \<and>
     fi_mtime row = m \<and> fi_size row = sz"
proof (cases "find (\<lambda>r. fi_path r = p) (db_files d)")
  case None
  let ?new = "\<lparr>fi_id = next_rowid (map fi_id (db_files d)) (db_files_seq d), fi_path = p,
           fi_mtime = m, fi_size = sz, fi_parsed_at = None, fi_last_error = None\<rparr>"
  have "Some row = Some ?new"
    by (rule trans[OF assms[symmetric] goc_file_new[OF None]])
  then have row: "row = ?new" by (rule option.inject[THEN iffD1])
  have s: "snd (get_or_create_file d p m sz) =
      next_rowid (map fi_id (db_files d)) (db_files_seq d)"
    by (rule goc_snd_new[OF None])
  show ?thesis unfolding row s by simp
next
  case (Some r0)
  have path: "fi_path r0 = p" by (rule find_path_Some[OF Some, THEN conjunct2])
  have "Some row = Some (r0\<lparr>fi_mtime := m, fi_size := sz\<rparr>)"
    by (rule trans[OF assms[symmetric] goc_file_existing[OF Some]])
  then have row: "row = r0\<lparr>fi_mtime := m, fi_size := sz\<rparr>" by (rule option.inject[THEN iffD1])
  have s: "snd (get_or_create_file d p m sz) = fi_id r0"
    by (rule goc_snd_existing[OF Some])
  show ?thesis unfolding row s by (simp add: path)
qed

lemma goc_keys_existing:
  assumes "find (\<lambda>r. fi_path r = p) (db_files d) = Some row"
  shows "(\<lambda>r. (fi_id r, fi_path r)) ` set (db_files (fst (get_or_create_file d p m sz))) =
         (\<lambda>r. (fi_id r, fi_path r)) ` set (db_files d)"
  by (simp add: goc_existing[OF assms] keys_map_update del: set_map)

lemma goc_functions_for_path:
  assumes "wf_db d"
  shows "functions_for_path (fst (get_or_create_file d p m sz)) q = functions_for_path d q"
proof (cases "find (\<lambda>r. fi_path r = p) (db_files d)")
  case None
  let ?n = "next_rowid (map fi_id (db_files d)) (db_files_seq d)"
  have ref: "\<forall>f\<in>set (db_functions d). fn_file_id f \<in> fi_id ` set (db_files d)"
    using assms by (simp add: wf_db_def list_all_iff)
  have nn: "?n \<notin> fi_id ` set (db_files d)"
    by (rule next_rowid_notin)
  have fresh: "\<forall>f\<in>set (db_functions d). fn_file_id f \<noteq> ?n"
  proof
    fix f assume "f \<in> set (db_functions d)"
    with ref have "fn_file_id f \<in> fi_id ` set (db_files d)" by (rule bspec)
    with nn show "fn_file_id f \<noteq> ?n" by (rule_tac notI) simp
  qed
  have neq: "?n \<noteq> fn_file_id f" if f: "f \<in> set (db_functions d)" for f
  proof -
    from fresh f have "fn_file_id f \<noteq> ?n" by (rule bspec)
    then show ?thesis by (rule not_sym)
  qed
  show ?thesis
    unfolding functions_for_path_def goc_new[OF None]
    by (rule filter_cong) (simp_all add: neq)
next
  case (Some row)
  show ?thesis
    by (rule functions_for_path_cong[OF goc_functions goc_keys_existing[OF Some]])
qed

end
